theory Spec2Isabelle
  imports Complex_Main
begin

section \<open>The in-memory vector search of the notebook\<close>

text \<open>
  The notebook \<^verbatim>\<open>Document Embeddings and Vector DB.ipynb\<close> defines three functions
  over NumPy arrays:
  \<^verbatim>\<open>
  def embed_documents(docs):
      return np.array(embedding_function.embed_documents(docs))

  def embed_query(query):
      return np.array(embedding_function.embed_documents([query]))[0,:]

  def retrieve_relevant_documents(doc_embeddings, query_embedding, k = 1):
      cosine_similarities = (doc_embeddings @ query_embedding) /
          (np.linalg.norm(doc_embeddings, axis = 1).T * np.linalg.norm(query_embedding))
      sim_scores = np.argsort(cosine_similarities)
      return [{'document' : sample_docs[i], 'score' : cosine_similarities[i]}
              for i in sim_scores[::-1][:k]]
  \<close>
  The first line of \<^verbatim>\<open>retrieve_relevant_documents\<close> is modelled over the exact reals:
  the entries of the arrays are finite numbers, and the rounding of double precision,
  its overflow to infinity and its underflow to zero are left out, so the value of a
  score in the model is the exact quotient, which the program only approximates. What
  IEEE division does at a zero divisor is kept. The second and third line work on the
  scores whatever they are; what is proved of them is proved for every list of scores
  (numbers, infinities and NaN), so for the ones the program computes too.
\<close>

subsection \<open>Values\<close>

text \<open>
  The result of a floating-point division: a number, an infinity, or NaN.
\<close>

datatype npfloat = Num real | PosInf | NegInf | NaN

text \<open>
  The exceptions. \<open>ValueError\<close>, \<open>IndexError\<close> and \<open>AxisError\<close> are the ones NumPy and
  Python raise in the three functions. \<open>EmptyIndexError\<close> and \<open>DimensionMismatchError\<close>
  are the names the specification uses; the notebook defines no such class and no
  path of the model constructs them.
\<close>

datatype error = ValueError | IndexError | AxisError | EmptyIndexError | DimensionMismatchError

text \<open>
  An array is one-dimensional, or two-dimensional with its number of columns and its
  rows (the column count is part of the shape also when there is no row). In a
  two-dimensional array every row has that many entries.
\<close>

datatype ndarray = Array1 "real list" | Array2 nat "real list list"


text \<open>One dictionary of the returned list: \<^verbatim>\<open>{'document': ..., 'score': ...}\<close>.\<close>

record entry =
  document :: string
  score :: npfloat

subsection \<open>The NumPy operations the functions call\<close>

text \<open>
  \<^verbatim>\<open>np.array\<close> on a list of lists of numbers: the empty list gives the one-dimensional
  array of shape (0,); rows of one length give a two-dimensional array; rows of
  different lengths are refused with ValueError.
\<close>

fun np_array :: "real list list \<Rightarrow> error + ndarray" where
  "np_array [] = Inr (Array1 [])"
| "np_array (r # rs) =
     (if list_all (\<lambda>x. length x = length r) rs then Inr (Array2 (length r) (r # rs))
      else Inl ValueError)"

text \<open>
  The index expression \<^verbatim>\<open>a[0,:]\<close>: two indices on a one-dimensional array, or row 0 of
  an array without rows, raise IndexError.
\<close>

fun first_row :: "ndarray \<Rightarrow> error + real list" where
  "first_row (Array1 xs) = Inl IndexError"
| "first_row (Array2 d []) = Inl IndexError"
| "first_row (Array2 d (r # rs)) = Inr r"

text \<open>
  The inner product of a row with the query, which \<^verbatim>\<open>@\<close> computes for each row: here
  the exact sum of the exact products.
\<close>

definition dot :: "real list \<Rightarrow> real list \<Rightarrow> real" where
  "dot u v = sum_list (map2 (*) u v)"

text \<open>
  \<^verbatim>\<open>np.linalg.norm\<close> of a vector: the square root of the sum of the squares, here
  exact. It is 0 for the zero vector only; in double precision the squares of a nonzero
  vector can underflow to 0 as well.
\<close>

definition l2norm :: "real list \<Rightarrow> real" where
  "l2norm v = sqrt (sum_list (map (\<lambda>x. x * x) v))"

text \<open>
  Elementwise \<^verbatim>\<open>/\<close> on finite operands, the quotient exact. A zero divisor raises
  nothing (NumPy prints a RuntimeWarning): 0/0 is NaN, and a nonzero number over 0 is an
  infinity with the sign of the number (the divisors here are products of norms, so
  never negative).
\<close>

definition np_divide :: "real \<Rightarrow> real \<Rightarrow> npfloat" where
  "np_divide a b =
     (if b \<noteq> 0 then Num (a / b)
      else if a = 0 then NaN
      else if 0 < a then PosInf
      else NegInf)"

text \<open>
  The comparison \<^verbatim>\<open><\<close> of doubles (false whenever one side is NaN), and the order
  NumPy sorts by, which places NaN after every other value.
\<close>

fun fl_less :: "npfloat \<Rightarrow> npfloat \<Rightarrow> bool" where
  "fl_less NaN b = False"
| "fl_less a NaN = False"
| "fl_less (Num x) (Num y) = (x < y)"
| "fl_less PosInf b = False"
| "fl_less a NegInf = False"
| "fl_less a PosInf = True"
| "fl_less NegInf b = True"

definition sort_lt :: "npfloat \<Rightarrow> npfloat \<Rightarrow> bool" where
  "sort_lt a b = (fl_less a b \<or> (b = NaN \<and> a \<noteq> NaN))"

definition sort_le :: "npfloat \<Rightarrow> npfloat \<Rightarrow> bool" where
  "sort_le a b = (\<not> sort_lt b a)"


text \<open>
  The slice \<^verbatim>\<open>xs[:k]\<close>: the first \<open>k\<close> elements, or, for a negative \<open>k\<close>, all but the
  last \<open>-k\<close>.
\<close>

definition py_slice_to :: "int \<Rightarrow> 'a list \<Rightarrow> 'a list" where
  "py_slice_to k xs =
     (if 0 \<le> k then take (nat k) xs else take (nat (int (length xs) + k)) xs)"

subsection \<open>np.argsort\<close>

text \<open>
  \<^verbatim>\<open>np.argsort\<close> is NumPy's, not the notebook's, so the retrieval takes it as a
  parameter. What NumPy promises of it: the result lists every index of the array
  once, in an order in which the values do not decrease, NaN last. The default kind
  (\<^verbatim>\<open>quicksort\<close>) promises no order among equal values.
\<close>

definition argsort_contract :: "(npfloat list \<Rightarrow> nat list) \<Rightarrow> bool" where
  "argsort_contract f =
     (\<forall>xs. distinct (f xs) \<and> set (f xs) = {0..<length xs} \<and>
           sorted_wrt (\<lambda>i j. sort_le (xs ! i) (xs ! j)) (f xs))"

text \<open>
  Two functions that meet the contract, for the examples and to show what the contract
  leaves open; neither is \<^verbatim>\<open>np.argsort\<close>, which may order equal values in yet another
  way. The first keeps equal values in index order (a stable sort): insertion sort over
  the indices in increasing order, each placed before the first index whose value is
  strictly greater.
\<close>

fun insert_idx :: "npfloat list \<Rightarrow> nat \<Rightarrow> nat list \<Rightarrow> nat list" where
  "insert_idx v i [] = [i]"
| "insert_idx v i (j # js) =
     (if sort_lt (v ! i) (v ! j) then i # j # js else j # insert_idx v i js)"

definition insertion_argsort :: "npfloat list \<Rightarrow> nat list" where
  "insertion_argsort v = foldl (\<lambda>acc i. insert_idx v i acc) [] [0..<length v]"

text \<open>
  The second leaves equal values in decreasing index order: each index is placed before
  the first index whose value is greater or equal.
\<close>

fun insert_idx_rev :: "npfloat list \<Rightarrow> nat \<Rightarrow> nat list \<Rightarrow> nat list" where
  "insert_idx_rev v i [] = [i]"
| "insert_idx_rev v i (j # js) =
     (if sort_le (v ! i) (v ! j) then i # j # js else j # insert_idx_rev v i js)"

definition reverse_insertion_argsort :: "npfloat list \<Rightarrow> nat list" where
  "reverse_insertion_argsort v = foldl (\<lambda>acc i. insert_idx_rev v i acc) [] [0..<length v]"

text \<open>
  The orders in which the two sorts leave the indices of \<open>v\<close>: by value, and among equal
  values by increasing index (\<open>stable_lt\<close>) or by decreasing index (\<open>reversed_lt\<close>).
\<close>

definition stable_lt :: "npfloat list \<Rightarrow> nat \<Rightarrow> nat \<Rightarrow> bool" where
  "stable_lt v a b = (sort_lt (v ! a) (v ! b) \<or> (sort_le (v ! a) (v ! b) \<and> a < b))"

definition reversed_lt :: "npfloat list \<Rightarrow> nat \<Rightarrow> nat \<Rightarrow> bool" where
  "reversed_lt v a b = (sort_lt (v ! a) (v ! b) \<or> (sort_le (v ! a) (v ! b) \<and> b < a))"

subsection \<open>The three functions\<close>

text \<open>
  \<open>ef\<close> is \<^verbatim>\<open>embedding_function.embed_documents\<close>, the batch call of the external
  embedding model: from a list of texts to a list of vectors.
\<close>

definition embed_documents :: "(string list \<Rightarrow> real list list) \<Rightarrow> string list \<Rightarrow> error + ndarray" where
  "embed_documents ef docs = np_array (ef docs)"

definition embed_query :: "(string list \<Rightarrow> real list list) \<Rightarrow> string \<Rightarrow> error + real list" where
  "embed_query ef query =
     (case np_array (ef [query]) of Inl e \<Rightarrow> Inl e | Inr a \<Rightarrow> first_row a)"

text \<open>The first line of \<^verbatim>\<open>retrieve_relevant_documents\<close> on the rows of a two-dimensional array.\<close>

definition cosine_similarities :: "real list list \<Rightarrow> real list \<Rightarrow> npfloat list" where
  "cosine_similarities rows q =
     map2 np_divide (map (\<lambda>r. dot r q) rows)
                    (map (\<lambda>n. n * l2norm q) (map l2norm rows))"

text \<open>
  The dictionary built for index \<open>i\<close>:
  \<^verbatim>\<open>{'document' : sample_docs[i], 'score' : cosine_similarities[i]}\<close>.
\<close>

definition entry_at :: "string list \<Rightarrow> npfloat list \<Rightarrow> nat \<Rightarrow> entry" where
  "entry_at docs cs i = \<lparr>document = docs ! i, score = cs ! i\<rparr>"

text \<open>
  The list comprehension: for each index in turn, \<^verbatim>\<open>sample_docs[i]\<close> and
  \<^verbatim>\<open>cosine_similarities[i]\<close>; an index out of range raises IndexError and no list
  is returned.
\<close>

fun collect :: "string list \<Rightarrow> npfloat list \<Rightarrow> nat list \<Rightarrow> error + entry list" where
  "collect docs cs [] = Inr []"
| "collect docs cs (i # is) =
     (if i < length docs \<and> i < length cs then
        (case collect docs cs is of
           Inl e \<Rightarrow> Inl e
         | Inr r \<Rightarrow> Inr (entry_at docs cs i # r))
      else Inl IndexError)"

text \<open>
  The second and third line of \<^verbatim>\<open>retrieve_relevant_documents\<close>, on the scores \<open>cs\<close> that
  the first line left: \<^verbatim>\<open>np.argsort\<close>, the reversal, the slice and the comprehension.
\<close>

definition rank_entries ::
  "(npfloat list \<Rightarrow> nat list) \<Rightarrow> string list \<Rightarrow> npfloat list \<Rightarrow> int \<Rightarrow> error + entry list" where
  "rank_entries argsort sample_docs cs k =
     (let sim_scores = argsort cs
      in collect sample_docs cs (py_slice_to k (rev sim_scores)))"

text \<open>
  \<open>argsort\<close> is \<^verbatim>\<open>np.argsort\<close> and \<open>sample_docs\<close> the global list of texts. On a
  one-dimensional \<open>doc_embeddings\<close> the product \<^verbatim>\<open>@\<close> raises ValueError unless the
  lengths agree, and then \<^verbatim>\<open>norm(..., axis = 1)\<close> raises AxisError. On a two-dimensional
  one the product raises ValueError unless the query has as many entries as the array
  has columns.
\<close>

fun retrieve_relevant_documents ::
  "(npfloat list \<Rightarrow> nat list) \<Rightarrow> string list \<Rightarrow> ndarray \<Rightarrow> real list \<Rightarrow> int \<Rightarrow> error + entry list" where
  "retrieve_relevant_documents argsort sample_docs (Array1 xs) query_embedding k =
     (if length xs = length query_embedding then Inl AxisError else Inl ValueError)"
| "retrieve_relevant_documents argsort sample_docs (Array2 d rows) query_embedding k =
     (if length query_embedding \<noteq> d then Inl ValueError
      else
        let cs = cosine_similarities rows query_embedding;
            sim_scores = argsort cs
        in collect sample_docs cs (py_slice_to k (rev sim_scores)))"

text \<open>
  The objects a call can reach: the global \<^verbatim>\<open>sample_docs\<close> and the array passed as
  \<^verbatim>\<open>doc_embeddings\<close> (by reference). The body assigns to neither and applies no
  in-place operation (\<^verbatim>\<open>@\<close>, \<^verbatim>\<open>/\<close>, \<^verbatim>\<open>*\<close>, \<^verbatim>\<open>norm\<close> and \<^verbatim>\<open>argsort\<close> build new
  arrays, the slices are taken of those), so the call hands both back as it found them.
\<close>

record index_state =
  sample_docs :: "string list"
  doc_embeddings :: ndarray

definition query ::
  "(npfloat list \<Rightarrow> nat list) \<Rightarrow> index_state \<Rightarrow> real list \<Rightarrow> int \<Rightarrow> (error + entry list) \<times> index_state" where
  "query argsort s query_embedding k =
     (retrieve_relevant_documents argsort (sample_docs s) (doc_embeddings s) query_embedding k, s)"

section \<open>Properties of the operations\<close>

subsection \<open>The sort order\<close>

lemma sort_lt_irrefl: "\<not> sort_lt a a"
  by (cases a) (simp_all add: sort_lt_def)

lemma sort_le_refl: "sort_le a a"
  by (simp add: sort_le_def sort_lt_irrefl)

lemma sort_le_total: "sort_le a b \<or> sort_le b a"
  by (cases a; cases b) (auto simp: sort_le_def sort_lt_def)

lemma sort_le_trans: "sort_le a b \<Longrightarrow> sort_le b c \<Longrightarrow> sort_le a c"
  by (cases a; cases b; cases c) (auto simp: sort_le_def sort_lt_def)

lemma sort_lt_le_trans: "sort_lt a b \<Longrightarrow> sort_le b c \<Longrightarrow> sort_lt a c"
  by (cases a; cases b; cases c) (auto simp: sort_le_def sort_lt_def)

lemma sort_lt_imp_le: "sort_lt a b \<Longrightarrow> sort_le a b"
  by (cases a; cases b) (auto simp: sort_le_def sort_lt_def)



lemma sorted_wrt_rev_flip: "sorted_wrt P (rev xs) = sorted_wrt (\<lambda>a b. P b a) xs"
  by (induction xs) (auto simp: sorted_wrt_append)

lemma sorted_wrt_position:
  assumes o: "sorted_wrt R p" and a: "a \<in> set p" and b: "b \<in> set p" and ab: "a \<noteq> b"
    and n: "\<not> R b a"
  shows "\<exists>s t. s < t \<and> t < length p \<and> p ! s = a \<and> p ! t = b"
proof -
  from a obtain s where s: "s < length p" "p ! s = a" by (auto simp: in_set_conv_nth)
  from b obtain t where t: "t < length p" "p ! t = b" by (auto simp: in_set_conv_nth)
  have "s < t"
  proof (rule ccontr)
    assume "\<not> s < t"
    moreover have "s \<noteq> t" using s t ab by auto
    ultimately have "t < s" by simp
    then have "R (p ! t) (p ! s)" using o s(1) by (simp add: sorted_wrt_iff_nth_less)
    then show False using n s t by simp
  qed
  then show ?thesis using s t by blast
qed

subsection \<open>What the contract of argsort gives\<close>

lemma argsort_contract_length: "argsort_contract f \<Longrightarrow> length (f xs) = length xs"
proof -
  assume c: "argsort_contract f"
  then have d: "distinct (f xs)" and s: "set (f xs) = {0..<length xs}"
    by (simp_all add: argsort_contract_def)
  from d have "length (f xs) = card (set (f xs))"
    by (simp add: distinct_card)
  with s show ?thesis by simp
qed

lemma argsort_contract_bound: "argsort_contract f \<Longrightarrow> i \<in> set (f xs) \<Longrightarrow> i < length xs"
  by (simp add: argsort_contract_def)

lemma argsort_contract_Nil: "argsort_contract f \<Longrightarrow> f [] = []"
  using argsort_contract_length[of f "[]"] by simp


subsection \<open>Inner products, norms and the quotient\<close>

lemma cosine_similarities_map:
  "cosine_similarities rows q = map (\<lambda>r. np_divide (dot r q) (l2norm r * l2norm q)) rows"
  by (induction rows) (simp_all add: cosine_similarities_def)

lemma length_cosine_similarities: "length (cosine_similarities rows q) = length rows"
  by (simp add: cosine_similarities_map)

lemma nth_cosine_similarities:
  "i < length rows \<Longrightarrow>
   cosine_similarities rows q ! i = np_divide (dot (rows ! i) q) (l2norm (rows ! i) * l2norm q)"
  by (simp add: cosine_similarities_map)

lemma sum_squares_nonneg: "0 \<le> sum_list (map (\<lambda>x. x * x) (v::real list))"
  by (induction v) simp_all

lemma sum_squares_zero: "sum_list (map (\<lambda>x. x * x) (v::real list)) = 0 \<longleftrightarrow> (\<forall>x\<in>set v. x = 0)"
proof (induction v)
  case Nil
  then show ?case by simp
next
  case (Cons a v)
  have "a * a + sum_list (map (\<lambda>x. x * x) v) = 0 \<longleftrightarrow> a * a = 0 \<and> sum_list (map (\<lambda>x. x * x) v) = 0"
    using sum_squares_nonneg[of v] by (intro add_nonneg_eq_0_iff) simp_all
  with Cons show ?case by simp
qed

lemma l2norm_zero: "l2norm v = 0 \<longleftrightarrow> (\<forall>x\<in>set v. x = 0)"
  by (simp add: l2norm_def sum_squares_zero)

lemma dot_zero_left: "\<forall>x\<in>set u. x = 0 \<Longrightarrow> dot u v = 0"
proof (induction u arbitrary: v)
  case Nil
  then show ?case by (simp add: dot_def)
next
  case (Cons a u)
  then show ?case by (cases v) (simp_all add: dot_def)
qed

lemma dot_zero_right: "\<forall>x\<in>set v. x = 0 \<Longrightarrow> dot u v = 0"
proof (induction u arbitrary: v)
  case Nil
  then show ?case by (simp add: dot_def)
next
  case (Cons a u)
  then show ?case by (cases v) (simp_all add: dot_def)
qed


lemma similarity_zero_norm:
  "l2norm r = 0 \<or> l2norm q = 0 \<Longrightarrow> np_divide (dot r q) (l2norm r * l2norm q) = NaN"
  by (auto simp: np_divide_def l2norm_zero dot_zero_left dot_zero_right)


subsection \<open>The comprehension and the slice\<close>

lemma collect_in_range:
  "\<forall>i\<in>set is. i < length docs \<and> i < length cs \<Longrightarrow>
   collect docs cs is = Inr (map (entry_at docs cs) is)"
  by (induction "is") simp_all

lemma collect_out_of_range:
  "\<exists>i\<in>set is. \<not> (i < length docs \<and> i < length cs) \<Longrightarrow> collect docs cs is = Inl IndexError"
  by (induction "is") (auto split: sum.splits)

lemma set_py_slice_to: "set (py_slice_to k xs) \<subseteq> set xs"
  by (auto simp: py_slice_to_def dest: in_set_takeD)

lemma py_slice_to_all: "int (length xs) \<le> k \<Longrightarrow> py_slice_to k xs = xs"
  by (simp add: py_slice_to_def)


subsection \<open>The two insertion sorts meet the contract\<close>

lemma set_insert_idx: "set (insert_idx v i js) = insert i (set js)"
  by (induction js) auto

lemma distinct_insert_idx: "i \<notin> set js \<Longrightarrow> distinct js \<Longrightarrow> distinct (insert_idx v i js)"
  by (induction js) (auto simp: set_insert_idx)

lemma stable_lt_trans_lt: "stable_lt v j x \<Longrightarrow> sort_lt (v ! i) (v ! j) \<Longrightarrow> sort_lt (v ! i) (v ! x)"
  unfolding stable_lt_def using sort_lt_le_trans sort_lt_imp_le by blast

lemma sorted_insert_idx:
  "sorted_wrt (stable_lt v) js \<Longrightarrow> \<forall>j\<in>set js. j < i \<Longrightarrow> sorted_wrt (stable_lt v) (insert_idx v i js)"
proof (induction js)
  case Nil
  then show ?case by simp
next
  case (Cons j js)
  show ?case
  proof (cases "sort_lt (v ! i) (v ! j)")
    case True
    have "stable_lt v i j" using True by (simp add: stable_lt_def)
    moreover have "\<forall>x\<in>set js. stable_lt v i x"
      using Cons.prems(1) True stable_lt_trans_lt[of v j _ i] by (auto simp: stable_lt_def)
    ultimately show ?thesis using True Cons.prems(1) by simp
  next
    case False
    have ji: "stable_lt v j i"
      using False Cons.prems(2) by (simp add: stable_lt_def sort_le_def)
    have "sorted_wrt (stable_lt v) (insert_idx v i js)"
      using Cons by simp
    then show ?thesis
      using False ji Cons.prems(1) by (auto simp: set_insert_idx)
  qed
qed

lemma insertion_fold_invariant:
  "distinct (foldl (\<lambda>acc i. insert_idx v i acc) [] [0..<n]) \<and>
   set (foldl (\<lambda>acc i. insert_idx v i acc) [] [0..<n]) = {0..<n} \<and>
   sorted_wrt (stable_lt v) (foldl (\<lambda>acc i. insert_idx v i acc) [] [0..<n])"
proof (induction n)
  case 0
  then show ?case by simp
next
  case (Suc n)
  let ?acc = "foldl (\<lambda>acc i. insert_idx v i acc) [] [0..<n]"
  from Suc have d: "distinct ?acc" and s: "set ?acc = {0..<n}" and o: "sorted_wrt (stable_lt v) ?acc"
    by simp_all
  have "distinct (insert_idx v n ?acc)"
    using d s by (intro distinct_insert_idx) simp_all
  moreover have "set (insert_idx v n ?acc) = {0..<Suc n}"
    using s by (auto simp: set_insert_idx)
  moreover have "sorted_wrt (stable_lt v) (insert_idx v n ?acc)"
    using o s by (intro sorted_insert_idx) simp_all
  ultimately show ?case by simp
qed

lemma stable_lt_imp_le: "stable_lt v a b \<Longrightarrow> sort_le (v ! a) (v ! b)"
  by (auto simp: stable_lt_def sort_lt_imp_le)

lemma insertion_argsort_stable: "sorted_wrt (stable_lt v) (insertion_argsort v)"
  using insertion_fold_invariant[of v "length v"] by (simp add: insertion_argsort_def)

lemma insertion_argsort_contract: "argsort_contract insertion_argsort"
  unfolding argsort_contract_def
proof (intro allI conjI)
  fix xs
  show "distinct (insertion_argsort xs)"
    using insertion_fold_invariant[of xs "length xs"] by (simp add: insertion_argsort_def)
  show "set (insertion_argsort xs) = {0..<length xs}"
    using insertion_fold_invariant[of xs "length xs"] by (simp add: insertion_argsort_def)
  show "sorted_wrt (\<lambda>i j. sort_le (xs ! i) (xs ! j)) (insertion_argsort xs)"
    using insertion_argsort_stable[of xs] stable_lt_imp_le
    by (rule sorted_wrt_mono_rel[rotated]) 
qed

lemma set_insert_idx_rev: "set (insert_idx_rev v i js) = insert i (set js)"
  by (induction js) auto

lemma distinct_insert_idx_rev:
  "i \<notin> set js \<Longrightarrow> distinct js \<Longrightarrow> distinct (insert_idx_rev v i js)"
  by (induction js) (auto simp: set_insert_idx_rev)

lemma reversed_lt_imp_le: "reversed_lt v a b \<Longrightarrow> sort_le (v ! a) (v ! b)"
  by (auto simp: reversed_lt_def sort_lt_imp_le)

lemma sorted_insert_idx_rev:
  "sorted_wrt (reversed_lt v) js \<Longrightarrow> \<forall>j\<in>set js. j < i \<Longrightarrow>
   sorted_wrt (reversed_lt v) (insert_idx_rev v i js)"
proof (induction js)
  case Nil
  then show ?case by simp
next
  case (Cons j js)
  show ?case
  proof (cases "sort_le (v ! i) (v ! j)")
    case True
    have "reversed_lt v i j" using True Cons.prems(2) by (simp add: reversed_lt_def)
    moreover have "\<forall>x\<in>set js. reversed_lt v i x"
    proof
      fix x assume x: "x \<in> set js"
      then have "sort_le (v ! j) (v ! x)" using Cons.prems(1) reversed_lt_imp_le by auto
      then have "sort_le (v ! i) (v ! x)" using True sort_le_trans by blast
      then show "reversed_lt v i x" using x Cons.prems(2) by (simp add: reversed_lt_def)
    qed
    ultimately show ?thesis using True Cons.prems(1) by simp
  next
    case False
    have ji: "reversed_lt v j i"
      using False by (simp add: reversed_lt_def sort_le_def)
    have "sorted_wrt (reversed_lt v) (insert_idx_rev v i js)"
      using Cons by simp
    then show ?thesis
      using False ji Cons.prems(1) by (auto simp: set_insert_idx_rev)
  qed
qed

lemma reverse_insertion_fold_invariant:
  "distinct (foldl (\<lambda>acc i. insert_idx_rev v i acc) [] [0..<n]) \<and>
   set (foldl (\<lambda>acc i. insert_idx_rev v i acc) [] [0..<n]) = {0..<n} \<and>
   sorted_wrt (reversed_lt v) (foldl (\<lambda>acc i. insert_idx_rev v i acc) [] [0..<n])"
proof (induction n)
  case 0
  then show ?case by simp
next
  case (Suc n)
  let ?acc = "foldl (\<lambda>acc i. insert_idx_rev v i acc) [] [0..<n]"
  from Suc have d: "distinct ?acc" and s: "set ?acc = {0..<n}" and o: "sorted_wrt (reversed_lt v) ?acc"
    by simp_all
  have "distinct (insert_idx_rev v n ?acc)"
    using d s by (intro distinct_insert_idx_rev) simp_all
  moreover have "set (insert_idx_rev v n ?acc) = {0..<Suc n}"
    using s by (auto simp: set_insert_idx_rev)
  moreover have "sorted_wrt (reversed_lt v) (insert_idx_rev v n ?acc)"
    using o s by (intro sorted_insert_idx_rev) simp_all
  ultimately show ?case by simp
qed

lemma reverse_insertion_argsort_order: "sorted_wrt (reversed_lt v) (reverse_insertion_argsort v)"
  using reverse_insertion_fold_invariant[of v "length v"] by (simp add: reverse_insertion_argsort_def)

lemma reverse_insertion_argsort_contract: "argsort_contract reverse_insertion_argsort"
  unfolding argsort_contract_def
proof (intro allI conjI)
  fix xs
  show "distinct (reverse_insertion_argsort xs)"
    using reverse_insertion_fold_invariant[of xs "length xs"] by (simp add: reverse_insertion_argsort_def)
  show "set (reverse_insertion_argsort xs) = {0..<length xs}"
    using reverse_insertion_fold_invariant[of xs "length xs"] by (simp add: reverse_insertion_argsort_def)
  show "sorted_wrt (\<lambda>i j. sort_le (xs ! i) (xs ! j)) (reverse_insertion_argsort xs)"
    using reverse_insertion_argsort_order[of xs] reversed_lt_imp_le
    by (rule sorted_wrt_mono_rel[rotated])
qed

subsection \<open>The retrieval on a two-dimensional array\<close>

lemma retrieve_Array2:
  assumes c: "argsort_contract f" and n: "length rows \<le> length docs" and q: "length q = d"
  shows "retrieve_relevant_documents f docs (Array2 d rows) q k =
         Inr (map (entry_at docs (cosine_similarities rows q))
                  (py_slice_to k (rev (f (cosine_similarities rows q)))))"
proof -
  let ?cs = "cosine_similarities rows q"
  have "\<forall>i\<in>set (py_slice_to k (rev (f ?cs))). i < length docs \<and> i < length ?cs"
  proof
    fix i assume "i \<in> set (py_slice_to k (rev (f ?cs)))"
    then have "i \<in> set (f ?cs)" using set_py_slice_to[of k "rev (f ?cs)"] by auto
    then have "i < length ?cs" using c by (rule argsort_contract_bound[rotated])
    then show "i < length docs \<and> i < length ?cs"
      using n by (simp add: length_cosine_similarities)
  qed
  then have "collect docs ?cs (py_slice_to k (rev (f ?cs))) =
             Inr (map (entry_at docs ?cs) (py_slice_to k (rev (f ?cs))))"
    by (rule collect_in_range)
  then show ?thesis using q by (simp add: Let_def)
qed

lemma retrieve_rank_entries:
  "length q = d \<Longrightarrow>
   retrieve_relevant_documents f docs (Array2 d rows) q k =
     rank_entries f docs (cosine_similarities rows q) k"
  by (simp add: rank_entries_def Let_def)

lemma rank_entries_in_range:
  assumes c: "argsort_contract f" and n: "length cs \<le> length docs"
  shows "rank_entries f docs cs k = Inr (map (entry_at docs cs) (py_slice_to k (rev (f cs))))"
proof -
  have "\<forall>i\<in>set (py_slice_to k (rev (f cs))). i < length docs \<and> i < length cs"
  proof
    fix i assume "i \<in> set (py_slice_to k (rev (f cs)))"
    then have "i \<in> set (f cs)" using set_py_slice_to[of k "rev (f cs)"] by auto
    then have "i < length cs" using c by (rule argsort_contract_bound[rotated])
    then show "i < length docs \<and> i < length cs" using n by simp
  qed
  then show ?thesis by (simp add: rank_entries_def Let_def collect_in_range)
qed

lemma rank_entries_all:
  assumes c: "argsort_contract f" and n: "length cs \<le> length docs" and k: "int (length cs) \<le> k"
  shows "rank_entries f docs cs k = Inr (map (entry_at docs cs) (rev (f cs)))"
proof -
  have "length (rev (f cs)) = length cs"
    using argsort_contract_length[OF c, of cs] by simp
  then have "py_slice_to k (rev (f cs)) = rev (f cs)"
    using k by (simp add: py_slice_to_all)
  then show ?thesis using rank_entries_in_range[OF c n, of k] by simp
qed

subsection \<open>The embedding of one text\<close>

text \<open>
  \<^verbatim>\<open>embed_query\<close> is the batch call on the list of one text, indexed at row 0: for every
  provider it returns what \<^verbatim>\<open>embed_documents\<close> of that list has as its first row, or
  the same error.
\<close>

lemma embed_query_batch_of_one:
  "embed_query ef q = (case embed_documents ef [q] of Inl e \<Rightarrow> Inl e | Inr a \<Rightarrow> first_row a)"
  by (simp add: embed_query_def embed_documents_def)

section \<open>The claims\<close>

text \<open>
  In the theorems below \<open>f\<close> is any argsort that meets NumPy's contract, \<open>docs\<close> is the
  global \<^verbatim>\<open>sample_docs\<close>, \<open>Array2 d rows\<close> is \<^verbatim>\<open>doc_embeddings\<close> and \<open>q\<close> is
  \<^verbatim>\<open>query_embedding\<close>. The examples run the first insertion sort.
\<close>

subsection \<open>C1: all records, ranked\<close>




subsection \<open>C2: the zero vector\<close>

text \<open>
  Claim C2, as the code has it. The division is not guarded: when the query or row
  \<open>i\<close> is the zero vector (every entry 0, so that its norm is 0 and so is its inner
  product with any vector), the score computed for row \<open>i\<close> is NaN (the quotient 0/0),
  not 0. No exception is raised, and the NaN reaches the result: for \<open>k\<close> at least the
  number of rows, the returned list holds the entry of row \<open>i\<close> with score NaN. A norm
  that is 0 in double precision by underflow, of a vector that is not zero, is not
  covered.
\<close>

theorem zero_vector_similarity_is_nan:
  assumes i: "i < length rows" and z: "(\<forall>x\<in>set q. x = 0) \<or> (\<forall>x\<in>set (rows ! i). x = 0)"
  shows "cosine_similarities rows q ! i = NaN \<and>
         (argsort_contract f \<longrightarrow> length q = d \<longrightarrow> length rows \<le> length docs \<longrightarrow>
          int (length rows) \<le> k \<longrightarrow>
            (\<exists>r. retrieve_relevant_documents f docs (Array2 d rows) q k = Inr r \<and>
                 \<lparr>document = docs ! i, score = NaN\<rparr> \<in> set r))"
proof (intro conjI impI)
  let ?cs = "cosine_similarities rows q"
  have z': "l2norm (rows ! i) = 0 \<or> l2norm q = 0"
    using z by (auto simp: l2norm_zero)
  show nan: "?cs ! i = NaN"
    using similarity_zero_norm[OF z'] by (simp add: nth_cosine_similarities[OF i])
  assume c: "argsort_contract f" and q: "length q = d" and n: "length rows \<le> length docs"
    and k: "int (length rows) \<le> k"
  have len: "length (f ?cs) = length rows"
    using argsort_contract_length[OF c, of ?cs] by (simp add: length_cosine_similarities)
  have sl: "py_slice_to k (rev (f ?cs)) = rev (f ?cs)" using k len by (simp add: py_slice_to_all)
  have "i \<in> set (rev (f ?cs))"
    using c i by (simp add: argsort_contract_def length_cosine_similarities)
  then have "entry_at docs ?cs i \<in> set (map (entry_at docs ?cs) (rev (f ?cs)))"
    by simp
  then show "\<exists>r. retrieve_relevant_documents f docs (Array2 d rows) q k = Inr r \<and>
                 \<lparr>document = docs ! i, score = NaN\<rparr> \<in> set r"
    using retrieve_Array2[OF c n q, of k] sl nan by (simp add: entry_at_def)
qed

text \<open>
  The theorem at a store whose second row is the zero vector.
\<close>

theorem zero_vector_similarity_is_nan_witness:
  "(1::nat) < length [[1, 0], [0, 0 :: real]] \<and> [[1, 0], [0, 0 :: real]] ! 1 = [0, 0] \<and>
   cosine_similarities [[1, 0], [0, 0]] [0, 1] ! 1 = NaN \<and>
   (\<exists>r. retrieve_relevant_documents insertion_argsort [''pig'', ''cow''] (Array2 2 [[1, 0], [0, 0]]) [0, 1] 2 = Inr r \<and>
        \<lparr>document = ''cow'', score = NaN\<rparr> \<in> set r)"
proof -
  have i: "(1::nat) < length [[1, 0], [0, 0 :: real]]" by simp
  have e: "[[1, 0], [0, 0 :: real]] ! 1 = [0, 0]" by simp
  have z: "(\<forall>x\<in>set [0, 1 :: real]. x = 0) \<or> (\<forall>x\<in>set ([[1, 0], [0, 0 :: real]] ! 1). x = 0)"
    by simp
  note t = zero_vector_similarity_is_nan[OF i z, of insertion_argsort 2 "[''pig'', ''cow'']" 2]
  have a: "cosine_similarities [[1, 0], [0, 0]] [0, 1] ! 1 = NaN"
    using t by (rule conjunct1)
  have "\<exists>r. retrieve_relevant_documents insertion_argsort [''pig'', ''cow''] (Array2 2 [[1, 0], [0, 0]]) [0, 1] 2 = Inr r \<and>
        \<lparr>document = [''pig'', ''cow''] ! 1, score = NaN\<rparr> \<in> set r"
    using t[THEN conjunct2] insertion_argsort_contract
    by (simp del: retrieve_relevant_documents.simps)
  then have b: "\<exists>r. retrieve_relevant_documents insertion_argsort [''pig'', ''cow''] (Array2 2 [[1, 0], [0, 0]]) [0, 1] 2 = Inr r \<and>
        \<lparr>document = ''cow'', score = NaN\<rparr> \<in> set r"
    by (simp del: retrieve_relevant_documents.simps)
  show ?thesis using i e a b by blast
qed

text \<open>
  Claim C2 as stated fails: for a stored zero vector the score is NaN, which is not 0,
  and the returned entry carries it.
\<close>

theorem zero_norm_similarity_counterexample:
  "l2norm [0, 0] = 0 \<and>
   cosine_similarities [[0, 0]] [1, 0] = [NaN] \<and>
   NaN \<noteq> Num 0 \<and>
   retrieve_relevant_documents insertion_argsort [''pig''] (Array2 2 [[0, 0]]) [1, 0] 1 =
     Inr [\<lparr>document = ''pig'', score = NaN\<rparr>]"
proof -
  have cs: "cosine_similarities [[0, 0]] [1, 0] = [NaN]"
    by (simp add: cosine_similarities_def dot_def l2norm_def np_divide_def)
  have srt: "insertion_argsort [NaN] = [0]"
    by code_simp
  have "retrieve_relevant_documents insertion_argsort [''pig''] (Array2 2 [[0, 0]]) [1, 0] 1 =
     Inr [\<lparr>document = ''pig'', score = NaN\<rparr>]"
    by (simp add: cs srt py_slice_to_def entry_at_def)
  then show ?thesis using cs by (simp add: l2norm_def)
qed

subsection \<open>C3: ties\<close>

text \<open>
  Claim C3, as the code has it. The function has no tie-break of its own: for \<open>k\<close> at
  least the number of scores, the returned entries are those of the indices argsort
  returns, in reverse, whatever the scores \<open>cs\<close> are; and the call is these two lines on
  the computed scores. So the order among rows of equal score is the one argsort
  leaves, and the contract of argsort leaves it open: for two indices \<open>i < j\<close> of equal
  score there is an argsort meeting the contract under which \<open>i\<close> stands before \<open>j\<close> in
  the result, and one under which \<open>j\<close> stands before \<open>i\<close>. \<open>p\<close> is the list of row indices
  in the order of the returned entries.
\<close>

theorem ties_follow_argsort:
  assumes n: "length cs \<le> length docs" and k: "int (length cs) \<le> k"
  shows "(argsort_contract f \<longrightarrow>
            rank_entries f docs cs k = Inr (map (entry_at docs cs) (rev (f cs)))) \<and>
         (length q = d \<longrightarrow>
            retrieve_relevant_documents f docs (Array2 d rows) q k =
              rank_entries f docs (cosine_similarities rows q) k) \<and>
         (i < j \<longrightarrow> j < length cs \<longrightarrow> cs ! i = cs ! j \<longrightarrow>
            (\<exists>g p s t. argsort_contract g \<and>
               rank_entries g docs cs k = Inr (map (entry_at docs cs) p) \<and>
               s < t \<and> t < length p \<and> p ! s = i \<and> p ! t = j) \<and>
            (\<exists>g p s t. argsort_contract g \<and>
               rank_entries g docs cs k = Inr (map (entry_at docs cs) p) \<and>
               s < t \<and> t < length p \<and> p ! s = j \<and> p ! t = i))"
proof (intro conjI impI)
  assume "argsort_contract f"
  then show "rank_entries f docs cs k = Inr (map (entry_at docs cs) (rev (f cs)))"
    using n k by (rule rank_entries_all)
next
  assume "length q = d"
  then show "retrieve_relevant_documents f docs (Array2 d rows) q k =
              rank_entries f docs (cosine_similarities rows q) k"
    by (rule retrieve_rank_entries)
next
  assume ij: "i < j" and j: "j < length cs" and tie: "cs ! i = cs ! j"
  let ?g = "reverse_insertion_argsort"
  let ?p = "rev (?g cs)"
  note c = reverse_insertion_argsort_contract
  have s: "set ?p = {0..<length cs}"
    using c by (simp add: argsort_contract_def)
  have o: "sorted_wrt (\<lambda>a b. reversed_lt cs b a) ?p"
    using reverse_insertion_argsort_order[of cs] by (simp add: sorted_wrt_rev_flip)
  have "\<not> reversed_lt cs i j"
    using ij tie by (simp add: reversed_lt_def sort_lt_irrefl)
  then have "\<exists>s t. s < t \<and> t < length ?p \<and> ?p ! s = i \<and> ?p ! t = j"
    using sorted_wrt_position[OF o, of i j] s ij j by simp
  then show "\<exists>g p s t. argsort_contract g \<and>
               rank_entries g docs cs k = Inr (map (entry_at docs cs) p) \<and>
               s < t \<and> t < length p \<and> p ! s = i \<and> p ! t = j"
    using rank_entries_all[OF c n k] c by blast
next
  assume ij: "i < j" and j: "j < length cs" and tie: "cs ! i = cs ! j"
  let ?g = "insertion_argsort"
  let ?p = "rev (?g cs)"
  note c = insertion_argsort_contract
  have s: "set ?p = {0..<length cs}"
    using c by (simp add: argsort_contract_def)
  have o: "sorted_wrt (\<lambda>a b. stable_lt cs b a) ?p"
    using insertion_argsort_stable[of cs] by (simp add: sorted_wrt_rev_flip)
  have "\<not> stable_lt cs j i"
    using ij tie by (simp add: stable_lt_def sort_lt_irrefl)
  then have "\<exists>s t. s < t \<and> t < length ?p \<and> ?p ! s = j \<and> ?p ! t = i"
    using sorted_wrt_position[OF o, of j i] s ij j by simp
  then show "\<exists>g p s t. argsort_contract g \<and>
               rank_entries g docs cs k = Inr (map (entry_at docs cs) p) \<and>
               s < t \<and> t < length p \<and> p ! s = j \<and> p ! t = i"
    using rank_entries_all[OF c n k] c by blast
qed

text \<open>
  The theorem at three scores of which the first two are equal.
\<close>

theorem ties_follow_argsort_witness:
  "length [Num 1, Num 1, Num 0] \<le> length [''pig'', ''cow'', ''hen''] \<and>
   int (length [Num 1, Num 1, Num 0]) \<le> 3 \<and>
   argsort_contract insertion_argsort \<and>
   cosine_similarities [[1, 0], [2, 0], [0, 1]] [1, 0] = [Num 1, Num 1, Num 0] \<and>
   retrieve_relevant_documents insertion_argsort [''pig'', ''cow'', ''hen'']
     (Array2 2 [[1, 0], [2, 0], [0, 1]]) [1, 0] 3 =
     rank_entries insertion_argsort [''pig'', ''cow'', ''hen''] [Num 1, Num 1, Num 0] 3 \<and>
   rank_entries insertion_argsort [''pig'', ''cow'', ''hen''] [Num 1, Num 1, Num 0] 3 =
     Inr (map (entry_at [''pig'', ''cow'', ''hen''] [Num 1, Num 1, Num 0])
              (rev (insertion_argsort [Num 1, Num 1, Num 0]))) \<and>
   (\<exists>g p s t. argsort_contract g \<and>
      rank_entries g [''pig'', ''cow'', ''hen''] [Num 1, Num 1, Num 0] 3 =
        Inr (map (entry_at [''pig'', ''cow'', ''hen''] [Num 1, Num 1, Num 0]) p) \<and>
      s < t \<and> t < length p \<and> p ! s = 0 \<and> p ! t = 1) \<and>
   (\<exists>g p s t. argsort_contract g \<and>
      rank_entries g [''pig'', ''cow'', ''hen''] [Num 1, Num 1, Num 0] 3 =
        Inr (map (entry_at [''pig'', ''cow'', ''hen''] [Num 1, Num 1, Num 0]) p) \<and>
      s < t \<and> t < length p \<and> p ! s = 1 \<and> p ! t = 0)"
proof -
  have n: "length [Num 1, Num 1, Num 0] \<le> length [''pig'', ''cow'', ''hen'']" by simp
  have k: "int (length [Num 1, Num 1, Num 0]) \<le> 3" by simp
  have cs: "cosine_similarities [[1, 0], [2, 0], [0, 1]] [1, 0] = [Num 1, Num 1, Num 0]"
    by (simp add: cosine_similarities_def dot_def l2norm_def np_divide_def)
  have q: "length [1, 0 :: real] = 2" by simp
  note t = ties_follow_argsort[OF n k, of insertion_argsort "[1, 0]" 2 "[[1, 0], [2, 0], [0, 1]]" 0 1]
  have a: "rank_entries insertion_argsort [''pig'', ''cow'', ''hen''] [Num 1, Num 1, Num 0] 3 =
     Inr (map (entry_at [''pig'', ''cow'', ''hen''] [Num 1, Num 1, Num 0])
              (rev (insertion_argsort [Num 1, Num 1, Num 0])))"
    using t[THEN conjunct1] insertion_argsort_contract by blast
  have b: "retrieve_relevant_documents insertion_argsort [''pig'', ''cow'', ''hen'']
     (Array2 2 [[1, 0], [2, 0], [0, 1]]) [1, 0] 3 =
     rank_entries insertion_argsort [''pig'', ''cow'', ''hen''] [Num 1, Num 1, Num 0] 3"
    using t[THEN conjunct2, THEN conjunct1] q cs by (simp del: retrieve_relevant_documents.simps)
  have h1: "(0::nat) < 1" by simp
  have h2: "(1::nat) < length [Num 1, Num 1, Num 0]" by simp
  have h3: "[Num 1, Num 1, Num 0] ! 0 = [Num 1, Num 1, Num 0] ! 1" by simp
  have c: "(\<exists>g p s t. argsort_contract g \<and>
      rank_entries g [''pig'', ''cow'', ''hen''] [Num 1, Num 1, Num 0] 3 =
        Inr (map (entry_at [''pig'', ''cow'', ''hen''] [Num 1, Num 1, Num 0]) p) \<and>
      s < t \<and> t < length p \<and> p ! s = 0 \<and> p ! t = 1) \<and>
   (\<exists>g p s t. argsort_contract g \<and>
      rank_entries g [''pig'', ''cow'', ''hen''] [Num 1, Num 1, Num 0] 3 =
        Inr (map (entry_at [''pig'', ''cow'', ''hen''] [Num 1, Num 1, Num 0]) p) \<and>
      s < t \<and> t < length p \<and> p ! s = 1 \<and> p ! t = 0)"
    by (rule t[THEN conjunct2, THEN conjunct2, THEN mp, THEN mp, THEN mp, OF h1 h2 h3])
  show ?thesis using n k insertion_argsort_contract cs a b c by blast
qed

text \<open>
  Claim C3 as stated fails as a guarantee: under an argsort that meets the contract, of
  four equal vectors the one inserted last is returned first and the one inserted first
  last.
\<close>

theorem ties_insertion_order_counterexample:
  "argsort_contract insertion_argsort \<and>
   cosine_similarities [[1, 0], [1, 0], [1, 0], [1, 0]] [1, 0] = [Num 1, Num 1, Num 1, Num 1] \<and>
   retrieve_relevant_documents insertion_argsort [''first'', ''second'', ''third'', ''fourth'']
     (Array2 2 [[1, 0], [1, 0], [1, 0], [1, 0]]) [1, 0] 4 =
     Inr [\<lparr>document = ''fourth'', score = Num 1\<rparr>, \<lparr>document = ''third'', score = Num 1\<rparr>,
          \<lparr>document = ''second'', score = Num 1\<rparr>, \<lparr>document = ''first'', score = Num 1\<rparr>]"
proof -
  have cs: "cosine_similarities [[1, 0], [1, 0], [1, 0], [1, 0]] [1, 0] = [Num 1, Num 1, Num 1, Num 1]"
    by (simp add: cosine_similarities_def dot_def l2norm_def np_divide_def)
  have srt: "insertion_argsort [Num 1, Num 1, Num 1, Num 1] = [0, 1, 2, 3]"
    by code_simp
  show ?thesis
    using insertion_argsort_contract by (simp add: cs srt py_slice_to_def entry_at_def)
qed

subsection \<open>C4: no records\<close>

text \<open>
  Claim C4, as the code has it. On an array with no row the call raises no
  EmptyIndexError: with \<open>d\<close> columns it returns the empty list when the query has \<open>d\<close>
  entries and raises ValueError otherwise, for every \<open>k\<close>; on the one-dimensional empty
  array (what \<^verbatim>\<open>np.array([])\<close> builds) it raises ValueError, or AxisError when the query
  is empty too.
\<close>

theorem retrieve_empty_index:
  assumes "argsort_contract f"
  shows "retrieve_relevant_documents f docs (Array2 d []) q k =
           (if length q = d then Inr [] else Inl ValueError) \<and>
         retrieve_relevant_documents f docs (Array1 []) q k =
           (if q = [] then Inl AxisError else Inl ValueError)"
  using argsort_contract_Nil[OF assms]
  by (auto simp: cosine_similarities_def py_slice_to_def)

text \<open>
  The theorem at an array of shape (0, 3), and at the empty one-dimensional array.
\<close>

theorem retrieve_empty_index_witness:
  "argsort_contract insertion_argsort \<and>
   retrieve_relevant_documents insertion_argsort [''pig''] (Array2 3 []) [1, 2, 3] 5 = Inr [] \<and>
   retrieve_relevant_documents insertion_argsort [''pig''] (Array1 []) [1, 2, 3] 5 = Inl ValueError"
  using retrieve_empty_index[OF insertion_argsort_contract, of "[''pig'']" 3 "[1, 2, 3]" 5]
    insertion_argsort_contract
  by (simp del: retrieve_relevant_documents.simps)

text \<open>
  Claim C4 as stated fails: on an array of shape (0, 2) the call returns the empty list.
\<close>

theorem empty_index_counterexample:
  "retrieve_relevant_documents insertion_argsort [] (Array2 2 []) [1, 0] 1 = Inr [] \<and>
   Inr [] \<noteq> (Inl EmptyIndexError :: error + entry list)"
proof -
  have "insertion_argsort [] = []" by code_simp
  then show ?thesis
    by (simp add: cosine_similarities_def py_slice_to_def)
qed

subsection \<open>C5: a query of another dimension\<close>

text \<open>
  Claim C5, as the code has it. When the query has not as many entries as the array
  has columns, the call fails with ValueError, which the product \<^verbatim>\<open>@\<close> raises, and the
  state is as it was.
\<close>

theorem query_dimension_mismatch:
  assumes "doc_embeddings s = Array2 d rows" and "length q \<noteq> d"
  shows "query f s q k = (Inl ValueError, s)"
  using assms by (simp add: query_def)

text \<open>
  The theorem at a query of three entries against two columns.
\<close>

theorem query_dimension_mismatch_witness:
  "doc_embeddings \<lparr>sample_docs = [''pig''], doc_embeddings = Array2 2 [[1, 0]]\<rparr> = Array2 2 [[1, 0]] \<and>
   length [1, 0, 0 :: real] \<noteq> 2 \<and>
   query insertion_argsort \<lparr>sample_docs = [''pig''], doc_embeddings = Array2 2 [[1, 0]]\<rparr> [1, 0, 0] 1 =
     (Inl ValueError, \<lparr>sample_docs = [''pig''], doc_embeddings = Array2 2 [[1, 0]]\<rparr>)"
proof -
  have a: "doc_embeddings \<lparr>sample_docs = [''pig''], doc_embeddings = Array2 2 [[1, 0]]\<rparr> = Array2 2 [[1, 0]]"
    by simp
  have b: "length [1, 0, 0 :: real] \<noteq> 2" by simp
  show ?thesis using query_dimension_mismatch[OF a b, of insertion_argsort 1] a b by blast
qed

text \<open>
  Claim C5 as stated fails in the error it names: the call fails with ValueError, not
  with DimensionMismatchError.
\<close>

theorem dimension_mismatch_counterexample:
  "fst (query insertion_argsort \<lparr>sample_docs = [''pig'', ''cow''], doc_embeddings = Array2 2 [[1, 0], [0, 1]]\<rparr> [1] 2) =
     Inl ValueError \<and>
   fst (query insertion_argsort \<lparr>sample_docs = [''pig'', ''cow''], doc_embeddings = Array2 2 [[1, 0], [0, 1]]\<rparr> [1] 2) \<noteq>
     Inl DimensionMismatchError"
  by (simp add: query_def)

subsection \<open>C7: the query reads only\<close>

text \<open>
  Claim C7. After every call, whether it returns or raises, \<^verbatim>\<open>sample_docs\<close> and
  \<^verbatim>\<open>doc_embeddings\<close> are what they were before it.
\<close>

theorem query_read_only:
  "snd (query f s q k) = s"
  by (simp add: query_def)

subsection \<open>C8: a stored vector as the query\<close>




subsection \<open>C10: the text comes from sample_docs\<close>

text \<open>
  Claim C10. When \<^verbatim>\<open>doc_embeddings\<close> has no more rows than \<^verbatim>\<open>sample_docs\<close> has texts,
  the call returns whenever the query has as many entries as the array has columns, and
  every entry it returns is, for some row index \<open>i\<close>, the text \<^verbatim>\<open>sample_docs[i]\<close> with
  the score computed for row \<open>i\<close>.
\<close>

theorem retrieve_pairs_score_with_sample_doc:
  assumes "argsort_contract f" and "length rows \<le> length docs"
  shows "(length q = d \<longrightarrow> (\<exists>r. retrieve_relevant_documents f docs (Array2 d rows) q k = Inr r)) \<and>
         (\<forall>r. retrieve_relevant_documents f docs (Array2 d rows) q k = Inr r \<longrightarrow>
            (\<forall>e\<in>set r. \<exists>i<length rows.
               document e = docs ! i \<and>
               score e = cosine_similarities rows q ! i \<and>
               score e = np_divide (dot (rows ! i) q) (l2norm (rows ! i) * l2norm q)))"
proof (intro conjI impI allI ballI)
  assume "length q = d"
  then show "\<exists>r. retrieve_relevant_documents f docs (Array2 d rows) q k = Inr r"
    using retrieve_Array2[OF assms] by blast
next
  fix r e
  assume r: "retrieve_relevant_documents f docs (Array2 d rows) q k = Inr r" and e: "e \<in> set r"
  let ?cs = "cosine_similarities rows q"
  have q: "length q = d" using r by (auto split: if_splits)
  have "r = map (entry_at docs ?cs) (py_slice_to k (rev (f ?cs)))"
    using r retrieve_Array2[OF assms q, of k] by simp
  with e obtain i where i: "i \<in> set (py_slice_to k (rev (f ?cs)))" and ei: "e = entry_at docs ?cs i"
    by auto
  from i have "i \<in> set (f ?cs)" using set_py_slice_to[of k "rev (f ?cs)"] by auto
  then have "i < length ?cs" using assms(1) by (rule argsort_contract_bound[rotated])
  then have il: "i < length rows" by (simp add: length_cosine_similarities)
  show "\<exists>i<length rows. document e = docs ! i \<and> score e = ?cs ! i \<and>
          score e = np_divide (dot (rows ! i) q) (l2norm (rows ! i) * l2norm q)"
    using il ei nth_cosine_similarities[OF il, of q] by (auto simp: entry_at_def)
qed

text \<open>
  The theorem at two rows and three texts: the entry returned pairs row 1 with the
  text at index 1.
\<close>

theorem retrieve_pairs_score_with_sample_doc_witness:
  "argsort_contract insertion_argsort \<and>
   length [[0, 1], [1, 0 :: real]] \<le> length [''pig'', ''cow'', ''hen''] \<and>
   retrieve_relevant_documents insertion_argsort [''pig'', ''cow'', ''hen''] (Array2 2 [[0, 1], [1, 0]]) [1, 0] 1 =
     Inr [\<lparr>document = ''cow'', score = Num 1\<rparr>] \<and>
   (\<exists>i<length [[0, 1], [1, 0 :: real]].
      document \<lparr>document = ''cow'', score = Num 1\<rparr> = [''pig'', ''cow'', ''hen''] ! i \<and>
      score \<lparr>document = ''cow'', score = Num 1\<rparr> = cosine_similarities [[0, 1], [1, 0]] [1, 0] ! i)"
proof -
  have n: "length [[0, 1], [1, 0 :: real]] \<le> length [''pig'', ''cow'', ''hen'']" by simp
  have cs: "cosine_similarities [[0, 1], [1, 0]] [1, 0] = [Num 0, Num 1]"
    by (simp add: cosine_similarities_def dot_def l2norm_def np_divide_def)
  have srt: "insertion_argsort [Num 0, Num 1] = [0, 1]"
    by code_simp
  have r: "retrieve_relevant_documents insertion_argsort [''pig'', ''cow'', ''hen''] (Array2 2 [[0, 1], [1, 0]]) [1, 0] 1 =
     Inr [\<lparr>document = ''cow'', score = Num 1\<rparr>]"
    by (simp add: cs srt py_slice_to_def entry_at_def)
  have "\<forall>e\<in>set [\<lparr>document = ''cow'', score = Num 1\<rparr>]. \<exists>i<length [[0, 1], [1, 0 :: real]].
           document e = [''pig'', ''cow'', ''hen''] ! i \<and>
           score e = cosine_similarities [[0, 1], [1, 0]] [1, 0] ! i \<and>
           score e = np_divide (dot ([[0, 1], [1, 0]] ! i) [1, 0]) (l2norm ([[0, 1], [1, 0]] ! i) * l2norm [1, 0])"
    using retrieve_pairs_score_with_sample_doc[OF insertion_argsort_contract n, of "[1, 0]" 2 1,
            THEN conjunct2, rule_format, OF r] by blast
  then have "\<exists>i<length [[0, 1], [1, 0 :: real]].
      document \<lparr>document = ''cow'', score = Num 1\<rparr> = [''pig'', ''cow'', ''hen''] ! i \<and>
      score \<lparr>document = ''cow'', score = Num 1\<rparr> = cosine_similarities [[0, 1], [1, 0]] [1, 0] ! i"
    by auto
  then show ?thesis using insertion_argsort_contract n r by blast
qed

end
